theory Spec2Isabelle
  imports Main "HOL-Library.Sublist"
begin

section \<open>safexl.toolkit: exceptions\<close>

text \<open>
  The exceptions that travel through \<^verbatim>\<open>toolkit.py\<close>.  \<^verbatim>\<open>ExcelError\<close> is the
  module's own class; it is raised with a text (\<^verbatim>\<open>worksheet_name_sanitization\<close>) or with
  the exception object caught in the \<^verbatim>\<open>with\<close> block (\<^verbatim>\<open>application\<close>), hence the
  argument type \<open>pyval\<close>.  \<open>com_error\<close> is \<^verbatim>\<open>pywintypes.com_error\<close>, the two
  \<open>psutil\<close> constructors are \<^verbatim>\<open>psutil.AccessDenied\<close> and \<^verbatim>\<open>psutil.NoSuchProcess\<close>,
  and \<open>OtherException\<close> stands for any other subclass of \<^verbatim>\<open>Exception\<close>.
\<close>

datatype exn =
    com_error
  | psutil_AccessDenied
  | psutil_NoSuchProcess
  | OtherException string
  | ExcelError pyval
and pyval =
    Str string
  | Exc exn

section \<open>worksheet\_name\_sanitization\<close>

text \<open>
  \<^verbatim>\<open>str.replace(char, "")\<close> with a one-character \<^verbatim>\<open>char\<close> deletes every occurrence
  of that character and keeps the others in order.
\<close>

definition replace_with_empty :: "char \<Rightarrow> string \<Rightarrow> string" where
  "replace_with_empty c s = filter (\<lambda>x. x \<noteq> c) s"

text \<open>The tuple the \<^verbatim>\<open>for\<close> loop runs over: \<^verbatim>\<open>("\\", "/", "*", "[", "]", ":", "?")\<close>.\<close>

definition invalid_chars :: "char list" where
  "invalid_chars = [CHR 0x5C, CHR ''/'', CHR ''*'', CHR ''['', CHR '']'', CHR '':'', CHR ''?'']"

definition worksheet_name_sanitization :: "string \<Rightarrow> exn + string" where
  "worksheet_name_sanitization worksheet_name =
     (let worksheet_name = fold replace_with_empty invalid_chars worksheet_name in
      if worksheet_name = [] then Inl (ExcelError (Str ''Worksheet name cannot be empty string''))
      else Inr (take 31 worksheet_name))"

section \<open>Properties of worksheet\_name\_sanitization\<close>

lemma fold_replace_with_empty:
  "fold replace_with_empty cs s = filter (\<lambda>x. x \<notin> set cs) s"
proof (induction cs arbitrary: s)
  case Nil
  show ?case by simp
next
  case (Cons c cs)
  have "fold replace_with_empty (c # cs) s = fold replace_with_empty cs (replace_with_empty c s)"
    by simp
  also have "\<dots> = filter (\<lambda>x. x \<notin> set cs) (filter (\<lambda>x. x \<noteq> c) s)"
    by (simp add: Cons.IH replace_with_empty_def)
  also have "\<dots> = filter (\<lambda>x. x \<notin> set (c # cs)) s"
    by (simp add: conj_commute)
  finally show ?case .
qed

lemma sanitization_eq:
  "worksheet_name_sanitization s =
     (if filter (\<lambda>x. x \<notin> set invalid_chars) s = []
      then Inl (ExcelError (Str ''Worksheet name cannot be empty string''))
      else Inr (take 31 (filter (\<lambda>x. x \<notin> set invalid_chars) s)))"
  by (simp add: worksheet_name_sanitization_def fold_replace_with_empty Let_def)

text \<open>
  Claim C7.  For every input string, \<^verbatim>\<open>worksheet_name_sanitization\<close> removes every
  occurrence of each of the seven characters \<^verbatim>\<open>\ / * [ ] : ?\<close> and keeps the other
  characters in their order (the result is a prefix of the input filtered by "not one of
  the seven"), the result has at most 31 characters and none of the seven, and the call
  fails with \<^verbatim>\<open>ExcelError\<close> exactly when nothing is left after the removal; this
  covers the empty input and every input made of the seven characters only.
\<close>

theorem worksheet_name_sanitization_spec:
  "((\<exists>e. worksheet_name_sanitization s = Inl e) \<longleftrightarrow>
      filter (\<lambda>x. x \<notin> set invalid_chars) s = [])
   \<and> (filter (\<lambda>x. x \<notin> set invalid_chars) s = [] \<longrightarrow>
        worksheet_name_sanitization s =
          Inl (ExcelError (Str ''Worksheet name cannot be empty string'')))
   \<and> (set s \<subseteq> set invalid_chars \<longrightarrow> (\<exists>e. worksheet_name_sanitization s = Inl e))
   \<and> (\<forall>r. worksheet_name_sanitization s = Inr r \<longrightarrow>
        r = take 31 (filter (\<lambda>x. x \<notin> set invalid_chars) s)
        \<and> length r \<le> 31
        \<and> set r \<inter> set invalid_chars = {})"
proof -
  let ?kept = "filter (\<lambda>x. x \<notin> set invalid_chars) s"
  have fails: "(\<exists>e. worksheet_name_sanitization s = Inl e) \<longleftrightarrow> ?kept = []"
    by (simp add: sanitization_eq)
  have msg: "?kept = [] \<longrightarrow> worksheet_name_sanitization s =
      Inl (ExcelError (Str ''Worksheet name cannot be empty string''))"
    by (simp add: sanitization_eq)
  have only_invalid: "set s \<subseteq> set invalid_chars \<longrightarrow> ?kept = []"
    by (auto simp: filter_empty_conv)
  have returned: "\<forall>r. worksheet_name_sanitization s = Inr r \<longrightarrow>
      r = take 31 ?kept \<and> length r \<le> 31 \<and> set r \<inter> set invalid_chars = {}"
  proof (intro allI impI)
    fix r
    assume "worksheet_name_sanitization s = Inr r"
    then have r: "r = take 31 ?kept"
      by (simp add: sanitization_eq split: if_splits)
    have "set r \<subseteq> set ?kept"
      unfolding r by (rule set_take_subset)
    then have "set r \<inter> set invalid_chars = {}"
      by auto
    with r show "r = take 31 ?kept \<and> length r \<le> 31 \<and> set r \<inter> set invalid_chars = {}"
      by simp
  qed
  from fails msg only_invalid returned show ?thesis
    by blast
qed

theorem worksheet_name_sanitization_spec_witness:
  "worksheet_name_sanitization [CHR 0x5C, CHR ''/'', CHR ''*'', CHR ''['', CHR '']'', CHR '':'', CHR ''?'', CHR ''a'']
     = Inr ''a''
   \<and> worksheet_name_sanitization ''*?'' =
       Inl (ExcelError (Str ''Worksheet name cannot be empty string''))
   \<and> worksheet_name_sanitization [] =
       Inl (ExcelError (Str ''Worksheet name cannot be empty string''))"
proof -
  let ?s = "[CHR 0x5C, CHR ''/'', CHR ''*'', CHR ''['', CHR '']'', CHR '':'', CHR ''?'', CHR ''a'']"
  have kept: "filter (\<lambda>x. x \<notin> set invalid_chars) ?s = ''a''"
    by (simp add: invalid_chars_def)
  note spec = worksheet_name_sanitization_spec [of ?s, unfolded kept]
  from spec have "\<not> (\<exists>e. worksheet_name_sanitization ?s = Inl e)"
    by blast
  then obtain r where r: "worksheet_name_sanitization ?s = Inr r"
    by (cases "worksheet_name_sanitization ?s") auto
  from spec r have "r = take 31 ''a''"
    by blast
  with r have first: "worksheet_name_sanitization ?s = Inr ''a''"
    by simp
  have kept2: "filter (\<lambda>x. x \<notin> set invalid_chars) ''*?'' = []"
    by (simp add: invalid_chars_def)
  have second: "worksheet_name_sanitization ''*?'' =
      Inl (ExcelError (Str ''Worksheet name cannot be empty string''))"
    using worksheet_name_sanitization_spec [of "''*?''", unfolded kept2] by blast
  have kept3: "filter (\<lambda>x. x \<notin> set invalid_chars) [] = []"
    by simp
  have third: "worksheet_name_sanitization [] =
      Inl (ExcelError (Str ''Worksheet name cannot be empty string''))"
    using worksheet_name_sanitization_spec [of "[]", unfolded kept3] by blast
  from first second third show ?thesis
    by simp
qed

text \<open>
  Claim C8.  \<^verbatim>\<open>worksheet_name_sanitization\<close> is idempotent: whenever it returns a name
  for \<open>x\<close>, applying it to that name returns the same name again.
\<close>

theorem worksheet_name_sanitization_idempotent:
  assumes "worksheet_name_sanitization x = Inr y"
  shows "worksheet_name_sanitization y = Inr y"
proof -
  let ?ok = "\<lambda>c. c \<notin> set invalid_chars"
  from assms have kept: "filter ?ok x \<noteq> []" and y: "y = take 31 (filter ?ok x)"
    by (simp_all add: sanitization_eq split: if_splits)
  have "set y \<subseteq> set (filter ?ok x)"
    unfolding y by (rule set_take_subset)
  then have "\<forall>c \<in> set y. ?ok c"
    by auto
  then have fy: "filter ?ok y = y"
    by (simp add: filter_id_conv)
  from kept have "y \<noteq> []"
    by (simp add: y)
  moreover have "take 31 y = y"
    by (simp add: y)
  ultimately show ?thesis
    by (simp add: sanitization_eq fy)
qed

theorem worksheet_name_sanitization_idempotent_witness:
  "worksheet_name_sanitization ''0123456789012345678901234567890123456789''
     = Inr ''0123456789012345678901234567890''
   \<and> worksheet_name_sanitization ''0123456789012345678901234567890''
     = Inr ''0123456789012345678901234567890''"
proof -
  have h: "worksheet_name_sanitization ''0123456789012345678901234567890123456789''
             = Inr ''0123456789012345678901234567890''"
    by (simp add: sanitization_eq invalid_chars_def)
  from h worksheet_name_sanitization_idempotent [OF h] show ?thesis
    by simp
qed

end
